theory Spec2Isabelle
  imports Complex_Main "HOL-Library.Word"
begin

section \<open>JavaScript strings\<close>

text \<open>
  A JavaScript string is a sequence of UTF-16 code units. String literals of the source are
  ASCII and are written through \<open>js\<close>.
\<close>

type_synonym jsstring = "16 word list"

definition js :: "string \<Rightarrow> jsstring" where
  "js s = map of_char s"

text \<open>
  \<open>String.prototype.trim\<close> removes the code units of the ECMAScript productions WhiteSpace
  and LineTerminator from both ends: TAB, LF, VT, FF, CR, SP, NBSP, the Unicode space
  separators, LS, PS and the byte order mark.
\<close>

definition isWhiteSpace :: "16 word \<Rightarrow> bool" where
  "isWhiteSpace c \<longleftrightarrow> c \<in> set [0x0009, 0x000A, 0x000B, 0x000C, 0x000D, 0x0020, 0x00A0,
     0x1680, 0x2000, 0x2001, 0x2002, 0x2003, 0x2004, 0x2005, 0x2006, 0x2007, 0x2008, 0x2009,
     0x200A, 0x2028, 0x2029, 0x202F, 0x205F, 0x3000, 0xFEFF]"

definition trim :: "jsstring \<Rightarrow> jsstring" where
  "trim s = rev (dropWhile isWhiteSpace (rev (dropWhile isWhiteSpace s)))"

section \<open>Constants of the module\<close>

definition MODEL_NAME :: jsstring where
  "MODEL_NAME = js ''gemini-1.0-pro''"

definition FIXED_PROMPT :: jsstring where
  "FIXED_PROMPT = js (
     ''\<newline>'' @
     ''You are a supportive and empathetic AI assistant designed to provide mental '' @
     ''health support and help users build emotional resilience. '' @
     ''Your responses should be caring, non-judgmental, and aimed at promoting '' @
     ''emotional well-being. '' @
     ''In addition to providing emotional support, you actively track and analyze the '' @
     ''user's mood patterns, offering personalized emotional resilience plans and '' @
     ''adaptive coping strategies. '' @
     ''You provide preemptive recommendations based on emotional triggers and suggest '' @
     ''progressive emotional growth challenges to help users strengthen their mental '' @
     ''health over time.'' @
     ''\<newline>'' @
     ''You offer real-time coping strategies in moments of distress and provide '' @
     ''positive reflection through automated journaling. '' @
     ''You collaborate with the user to create mental health action plans and adapt '' @
     ''your guidance based on what works best for them. '' @
     ''Always remind the user that you are an AI, encourage self-care, and suggest '' @
     ''professional help when needed.'' @
     ''\<newline>'')"

section \<open>The request to the generative-language endpoint\<close>

datatype HarmCategory =
    HARM_CATEGORY_UNSPECIFIED
  | HARM_CATEGORY_HATE_SPEECH
  | HARM_CATEGORY_SEXUALLY_EXPLICIT
  | HARM_CATEGORY_HARASSMENT
  | HARM_CATEGORY_DANGEROUS_CONTENT

datatype HarmBlockThreshold =
    HARM_BLOCK_THRESHOLD_UNSPECIFIED
  | BLOCK_LOW_AND_ABOVE
  | BLOCK_MEDIUM_AND_ABOVE
  | BLOCK_ONLY_HIGH
  | BLOCK_NONE

record GenerationConfig =
  temperature :: real
  topK :: int
  topP :: real
  maxOutputTokens :: int

record SafetySetting =
  category :: HarmCategory
  threshold :: HarmBlockThreshold

text \<open>One entry of the chat history: \<open>{ role, parts: [{ text }, ...] }\<close>.\<close>

record Content =
  speaker :: jsstring
  parts :: "jsstring list"

text \<open>
  Everything \<open>runChat\<close> hands to the SDK for one call: the key and model name of the client,
  the arguments of \<open>startChat\<close>, and the argument of \<open>sendMessage\<close>.
\<close>

record request =
  apiKey :: jsstring
  model :: jsstring
  generationConfig :: GenerationConfig
  safetySettings :: "SafetySetting list"
  history :: "Content list"
  sendMessage :: jsstring

section \<open>State of the chat component\<close>

record message =
  role :: jsstring
  content :: jsstring

datatype error =
    RemoteError jsstring
  | TypeError jsstring

datatype console_arg = Str jsstring | Err error

text \<open>The recogniser object held in \<open>recognitionRef\<close>; \<open>running\<close> is set by \<open>start()\<close> and
  cleared by \<open>stop()\<close>.\<close>

record SpeechRecognition =
  continuous :: bool
  interimResults :: bool
  running :: bool

datatype SpeechSynthesis = WindowSpeechSynthesis

text \<open>
  A recognition result always has a first alternative (\<open>result[0]\<close>); the handler reads its
  transcript only.
\<close>

record SpeechRecognitionAlternative =
  transcript :: jsstring

datatype SpeechRecognitionResult =
  SpeechRecognitionResult (isFinal: bool) (item0: SpeechRecognitionAlternative)
    (further: "SpeechRecognitionAlternative list")

text \<open>
  What the page is given from outside: the key from the process environment, and whether the
  browser has \<open>window.speechSynthesis\<close> and a \<open>SpeechRecognition\<close> constructor.
\<close>

record env =
  API_KEY :: jsstring
  speechSynthesis :: "SpeechSynthesis option"
  hasSpeechRecognition :: bool

text \<open>
  The first five fields are the \<open>useState\<close> cells of \<open>ChatInterface\<close>, the next four its refs
  and animation controls. The rest is what the component does to its surroundings:
  \<^item> \<open>outbound\<close>: the requests handed to the endpoint, oldest first;
  \<^item> \<open>awaiting\<close>: the number of \<open>handleSubmit\<close> calls suspended at \<open>await\<close>;
  \<^item> \<open>utterances\<close>: the utterance queue of \<open>window.speechSynthesis\<close>, the one being spoken
    first (\<open>speak\<close> appends to it, \<open>cancel\<close> empties it); every utterance the component
    makes carries the same \<open>onend\<close> handler, so its text identifies it;
  \<^item> \<open>console\<close>: the calls of \<open>console.error\<close>;
  \<^item> \<open>uncaught\<close>: exceptions that left a handler.
\<close>

record state =
  messages :: "message list"
  input :: jsstring
  isTyping :: bool
  isListening :: bool
  isSpeaking :: bool
  recognitionRef :: "SpeechRecognition option"
  synthRef :: "SpeechSynthesis option"
  micControls :: bool
  waveformControls :: bool
  outbound :: "request list"
  awaiting :: nat
  utterances :: "jsstring list"
  console :: "console_arg list list"
  uncaught :: "error list"

definition greeting :: message where
  "greeting = \<lparr>role = js ''assistant'',
     content = js ''Hello! I'm Serenity, your AI companion. How can I support you today?''\<rparr>"

definition ChatInterface :: state where
  "ChatInterface = \<lparr>messages = [greeting], input = js '''', isTyping = False,
     isListening = False, isSpeaking = False, recognitionRef = None, synthRef = None,
     micControls = False, waveformControls = False,
     outbound = [], awaiting = 0, utterances = [], console = [], uncaught = []\<rparr>"

text \<open>
  The effect with dependency \<open>[messages]\<close>: it runs after mounting and after a render in which
  \<open>messages\<close> is a new array (\<open>setMessages\<close> always makes a longer one). Scrolling has no
  state here.
\<close>

definition useEffect :: "env \<Rightarrow> state \<Rightarrow> state" where
  "useEffect e st = st\<lparr>synthRef := speechSynthesis e\<rparr>"

definition render :: "env \<Rightarrow> state \<Rightarrow> state \<Rightarrow> state" where
  "render e before st = (if messages st = messages before then st else useEffect e st)"

section \<open>runChat\<close>

definition runChat_request :: "env \<Rightarrow> jsstring \<Rightarrow> request" where
  "runChat_request e prompt =
     \<lparr>apiKey = API_KEY e,
      model = MODEL_NAME,
      generationConfig =
        \<lparr>temperature = 0.9, topK = 1, topP = 1, maxOutputTokens = 2048\<rparr>,
      safetySettings =
        [\<lparr>category = HARM_CATEGORY_HARASSMENT, threshold = BLOCK_MEDIUM_AND_ABOVE\<rparr>,
         \<lparr>category = HARM_CATEGORY_HATE_SPEECH, threshold = BLOCK_MEDIUM_AND_ABOVE\<rparr>,
         \<lparr>category = HARM_CATEGORY_SEXUALLY_EXPLICIT, threshold = BLOCK_MEDIUM_AND_ABOVE\<rparr>,
         \<lparr>category = HARM_CATEGORY_DANGEROUS_CONTENT, threshold = BLOCK_MEDIUM_AND_ABOVE\<rparr>],
      history = [\<lparr>speaker = js ''user'', parts = [FIXED_PROMPT]\<rparr>],
      sendMessage = prompt\<rparr>"

text \<open>
  \<open>runChat\<close> up to its \<open>await\<close>: the request leaves and the caller is suspended. The promise
  settles later with \<open>Inr text\<close> (the value of \<open>response.text()\<close>) or \<open>Inl err\<close> (rejected by
  the network, the endpoint, or \<open>text()\<close> throwing).
\<close>

definition runChat :: "env \<Rightarrow> jsstring \<Rightarrow> state \<Rightarrow> state" where
  "runChat e prompt st =
     st\<lparr>outbound := outbound st @ [runChat_request e prompt], awaiting := Suc (awaiting st)\<rparr>"

section \<open>Speech output\<close>

definition speakResponse :: "jsstring \<Rightarrow> state \<Rightarrow> state" where
  "speakResponse text st =
     (case synthRef st of
        None \<Rightarrow> st
      | Some synth \<Rightarrow>
          let st = st\<lparr>isSpeaking := True\<rparr>;
              utterance = text
          in st\<lparr>utterances := utterances st @ [utterance]\<rparr>)"

text \<open>\<open>utterance.onend\<close>, the same for every utterance.\<close>

definition utterance_onend :: "state \<Rightarrow> state" where
  "utterance_onend st = st\<lparr>isSpeaking := False\<rparr>"

definition stopSpeaking :: "state \<Rightarrow> state" where
  "stopSpeaking st =
     (case synthRef st of
        None \<Rightarrow> st
      | Some synth \<Rightarrow>
          let st = st\<lparr>utterances := []\<rparr>
          in st\<lparr>isSpeaking := False\<rparr>)"

section \<open>handleSubmit\<close>

text \<open>
  The handler up to \<open>await runChat(input)\<close>. \<open>input\<close> is the value the handler closed over:
  the request carries it although \<open>setInput('')\<close> has run. (\<open>e.preventDefault()\<close> keeps
  the browser from loading a page and touches nothing here.)
\<close>

definition handleSubmit :: "env \<Rightarrow> state \<Rightarrow> state" where
  "handleSubmit e st =
     (let input0 = input st in
      if trim input0 = [] then st
      else
        let userMessage = \<lparr>role = js ''user'', content = input0\<rparr>;
            st = st\<lparr>messages := messages st @ [userMessage]\<rparr>;
            st = st\<lparr>input := js ''''\<rparr>;
            st = st\<lparr>isTyping := True\<rparr>
        in runChat e input0 st)"

text \<open>The rest of the handler, run when the promise of \<open>runChat\<close> settles:
  the \<open>try\<close> body after the \<open>await\<close>, or the \<open>catch\<close> block, and then \<open>finally\<close>.\<close>

definition handleSubmit_settled :: "error + jsstring \<Rightarrow> state \<Rightarrow> state" where
  "handleSubmit_settled outcome st =
     (let st = st\<lparr>awaiting := awaiting st - 1\<rparr>;
          st =
            (case outcome of
               Inr response \<Rightarrow>
                 let assistantMessage = \<lparr>role = js ''assistant'', content = response\<rparr>;
                     st = st\<lparr>messages := messages st @ [assistantMessage]\<rparr>
                 in speakResponse response st
             | Inl err \<Rightarrow>
                 let st = st\<lparr>console := console st @ [[Str (js ''Error:''), Err err]]\<rparr>;
                     errorMessage = \<lparr>role = js ''assistant'',
                       content = js ''I'm sorry, I encountered an error. Please try again.''\<rparr>
                 in st\<lparr>messages := messages st @ [errorMessage]\<rparr>)
      in st\<lparr>isTyping := False\<rparr>)"

section \<open>Speech input\<close>

definition stopListening :: "state \<Rightarrow> state" where
  "stopListening st =
     (let st = st\<lparr>isListening := False\<rparr>;
          st = st\<lparr>micControls := False\<rparr>;
          st = st\<lparr>waveformControls := False\<rparr>
      in case recognitionRef st of
           None \<Rightarrow> st
         | Some recognition \<Rightarrow> st\<lparr>recognitionRef := Some (recognition\<lparr>running := False\<rparr>)\<rparr>)"

text \<open>Without a \<open>SpeechRecognition\<close> constructor \<open>new SpeechRecognition()\<close> throws, after the
  flag and the animations have been set.\<close>

definition startListening :: "env \<Rightarrow> state \<Rightarrow> state" where
  "startListening e st =
     (let st = st\<lparr>isListening := True\<rparr>;
          st = st\<lparr>micControls := True\<rparr>;
          st = st\<lparr>waveformControls := True\<rparr>
      in if \<not> hasSpeechRecognition e
         then st\<lparr>uncaught := uncaught st @ [TypeError (js ''SpeechRecognition is not a constructor'')]\<rparr>
         else
           let recognition = \<lparr>continuous = False, interimResults = False, running = False\<rparr>;
               recognition = recognition\<lparr>continuous := True\<rparr>;
               recognition = recognition\<lparr>interimResults := True\<rparr>;
               recognition = recognition\<lparr>running := True\<rparr>
           in st\<lparr>recognitionRef := Some recognition\<rparr>)"

definition toggleVoiceInput :: "env \<Rightarrow> state \<Rightarrow> state" where
  "toggleVoiceInput e st =
     (if \<not> isListening st then startListening e st else stopListening st)"

text \<open>\<open>recognition.onresult\<close> and \<open>recognition.onerror\<close>, as \<open>startListening\<close> installs them.\<close>

definition recognition_onresult :: "SpeechRecognitionResult list \<Rightarrow> state \<Rightarrow> state" where
  "recognition_onresult results st =
     (let transcript = concat (map (\<lambda>result. transcript (item0 result)) results)
      in st\<lparr>input := transcript\<rparr>)"

definition recognition_onerror :: "jsstring \<Rightarrow> state \<Rightarrow> state" where
  "recognition_onerror event_error st =
     (let st = st\<lparr>console := console st @
                 [[Str (js ''Speech recognition error''), Str event_error]]\<rparr>
      in stopListening st)"

section \<open>The controls of the form\<close>

text \<open>The speaker button: \<open>isSpeaking ? stopSpeaking : () => speakResponse(messages[messages.length - 1].content)\<close>.
  Reading \<open>content\<close> of the last element of an empty array throws.\<close>

definition speaker_onClick :: "state \<Rightarrow> state" where
  "speaker_onClick st =
     (if isSpeaking st then stopSpeaking st
      else case messages st of
             [] \<Rightarrow> st\<lparr>uncaught := uncaught st @ [TypeError (js ''Cannot read properties of undefined'')]\<rparr>
           | _ \<Rightarrow> speakResponse (content (last (messages st))) st)"

text \<open>
  What can happen to a mounted component. The submit button is \<open>disabled={isTyping}\<close>, so
  the browser does not submit the form while a reply is awaited; a promise settles only if a
  call is suspended on it; the recogniser fires events only once it exists; the synthesiser
  ends the utterance at the head of its queue. An event that cannot happen leaves the state
  as it is.
\<close>

datatype event =
    Change jsstring
  | Submit
  | Settled "error + jsstring"
  | MicClick
  | SpeechResult "SpeechRecognitionResult list"
  | SpeechError jsstring
  | SpeakerClick
  | UtteranceEnd

fun step :: "env \<Rightarrow> event \<Rightarrow> state \<Rightarrow> state" where
  "step e (Change v) st = st\<lparr>input := v\<rparr>"
| "step e Submit st = (if isTyping st then st else render e st (handleSubmit e st))"
| "step e (Settled outcome) st =
     (if awaiting st = 0 then st else render e st (handleSubmit_settled outcome st))"
| "step e MicClick st = toggleVoiceInput e st"
| "step e (SpeechResult results) st =
     (case recognitionRef st of None \<Rightarrow> st | Some _ \<Rightarrow> recognition_onresult results st)"
| "step e (SpeechError err) st =
     (case recognitionRef st of None \<Rightarrow> st | Some _ \<Rightarrow> recognition_onerror err st)"
| "step e SpeakerClick st = speaker_onClick st"
| "step e UtteranceEnd st =
     (case utterances st of
        [] \<Rightarrow> st
      | u # us \<Rightarrow> utterance_onend (st\<lparr>utterances := us\<rparr>))"

fun run :: "env \<Rightarrow> event list \<Rightarrow> state \<Rightarrow> state" where
  "run e [] st = st"
| "run e (ev # evs) st = run e evs (step e ev st)"

text \<open>The component after mounting: the initial \<open>useState\<close> values and the first effect.\<close>

definition mount :: "env \<Rightarrow> state" where
  "mount e = useEffect e ChatInterface"

section \<open>The chat component of components/landing-page.tsx\<close>

text \<open>
  The second file holds an earlier \<open>ChatInterface\<close> without the speech bridge: its cells are
  \<open>messages\<close>, \<open>input\<close> and \<open>isTyping\<close>, its greeting names GeminiMind, \<open>runChat\<close> and
  \<open>handleSubmit\<close> up to the \<open>await\<close> are the same text, and the \<open>try\<close> body does not speak.
  It is modelled on the same record, whose other cells it never touches.
\<close>

definition greeting_landing :: message where
  "greeting_landing = \<lparr>role = js ''assistant'',
     content = js ''Hello! I'm GeminiMind, your AI companion. How can I support you today?''\<rparr>"

definition ChatInterface_landing :: state where
  "ChatInterface_landing = ChatInterface\<lparr>messages := [greeting_landing]\<rparr>"

definition handleSubmit_settled_landing :: "error + jsstring \<Rightarrow> state \<Rightarrow> state" where
  "handleSubmit_settled_landing outcome st =
     (let st = st\<lparr>awaiting := awaiting st - 1\<rparr>;
          st =
            (case outcome of
               Inr response \<Rightarrow>
                 let assistantMessage = \<lparr>role = js ''assistant'', content = response\<rparr>
                 in st\<lparr>messages := messages st @ [assistantMessage]\<rparr>
             | Inl err \<Rightarrow>
                 let st = st\<lparr>console := console st @ [[Str (js ''Error:''), Err err]]\<rparr>;
                     errorMessage = \<lparr>role = js ''assistant'',
                       content = js ''I'm sorry, I encountered an error. Please try again.''\<rparr>
                 in st\<lparr>messages := messages st @ [errorMessage]\<rparr>)
      in st\<lparr>isTyping := False\<rparr>)"

text \<open>Its form has the text field and the submit button only; its effect scrolls and
  changes no state.\<close>

fun step_landing :: "env \<Rightarrow> event \<Rightarrow> state \<Rightarrow> state" where
  "step_landing e (Change v) st = st\<lparr>input := v\<rparr>"
| "step_landing e Submit st = (if isTyping st then st else handleSubmit e st)"
| "step_landing e (Settled outcome) st =
     (if awaiting st = 0 then st else handleSubmit_settled_landing outcome st)"
| "step_landing e _ st = st"

fun run_landing :: "env \<Rightarrow> event list \<Rightarrow> state \<Rightarrow> state" where
  "run_landing e [] st = st"
| "run_landing e (ev # evs) st = run_landing e evs (step_landing e ev st)"

section \<open>What a request carries\<close>

text \<open>
  The Turns of a request, in the order the endpoint reads them: one per history entry, then
  the argument of \<open>sendMessage\<close>, which the SDK sends as a user part.
\<close>

definition request_turns :: "request \<Rightarrow> message list" where
  "request_turns r =
     map (\<lambda>c. \<lparr>role = speaker c, content = concat (parts c)\<rparr>) (history r) @
     [\<lparr>role = js ''user'', content = sendMessage r\<rparr>]"

section \<open>A browser for worked scenarios\<close>

text \<open>A browser that has both speech interfaces, and some key.\<close>

definition browser :: env where
  "browser = \<lparr>API_KEY = js ''key'', speechSynthesis = Some WindowSpeechSynthesis,
     hasSpeechRecognition = True\<rparr>"

section \<open>Basic facts\<close>

lemmas handler_defs = handleSubmit_def handleSubmit_settled_def runChat_def speakResponse_def
  stopSpeaking_def utterance_onend_def stopListening_def startListening_def toggleVoiceInput_def
  recognition_onresult_def recognition_onerror_def speaker_onClick_def useEffect_def render_def
  handleSubmit_settled_landing_def

text \<open>\<open>trim\<close> leaves nothing exactly when every code unit is white space.\<close>

lemma trim_empty_iff: "trim s = [] \<longleftrightarrow> (\<forall>c\<in>set s. isWhiteSpace c)"
proof -
  let ?d = "dropWhile isWhiteSpace s"
  have "(\<forall>c\<in>set ?d. isWhiteSpace c) \<longleftrightarrow> (\<forall>c\<in>set s. isWhiteSpace c)"
  proof
    assume all: "\<forall>c\<in>set ?d. isWhiteSpace c"
    have "?d = []"
    proof (rule ccontr)
      assume ne: "?d \<noteq> []"
      then have "\<not> isWhiteSpace (hd ?d)" by (rule hd_dropWhile)
      moreover from ne have "hd ?d \<in> set ?d" by simp
      ultimately show False using all by blast
    qed
    then show "\<forall>c\<in>set s. isWhiteSpace c" by (simp only: dropWhile_eq_Nil_conv)
  next
    assume "\<forall>c\<in>set s. isWhiteSpace c"
    then show "\<forall>c\<in>set ?d. isWhiteSpace c" by (blast dest: set_dropWhileD)
  qed
  then show ?thesis by (simp add: trim_def dropWhile_eq_Nil_conv)
qed

lemma run_append: "run e (xs @ ys) st = run e ys (run e xs st)"
  by (induction xs arbitrary: st) simp_all

lemma run_landing_append:
  "run_landing e (xs @ ys) st = run_landing e ys (run_landing e xs st)"
  by (induction xs arbitrary: st) simp_all

text \<open>What an accepted submission does before it is suspended.\<close>

lemma submit_accepted:
  assumes "trim (input st) \<noteq> []"
  shows "handleSubmit e st =
     st\<lparr>messages := messages st @ [\<lparr>role = js ''user'', content = input st\<rparr>],
        input := [], isTyping := True,
        outbound := outbound st @ [runChat_request e (input st)],
        awaiting := Suc (awaiting st)\<rparr>"
  using assms by (simp add: handleSubmit_def runChat_def Let_def js_def)

section \<open>Blank input\<close>

text \<open>
  C5. When the input is empty or consists of white space only, submitting is a no-op: the
  handler returns the state it was given, so the transcript, \<open>isTyping\<close>, the list of
  requests and the console are all unchanged, in both components.
\<close>

theorem blank_input_is_noop:
  assumes "\<forall>c\<in>set (input st). isWhiteSpace c"
  shows "handleSubmit e st = st \<and> step e Submit st = st \<and> step_landing e Submit st = st"
proof -
  from assms have "trim (input st) = []" by (simp add: trim_empty_iff)
  then have "handleSubmit e st = st" by (simp add: handleSubmit_def)
  then show ?thesis by (simp add: render_def)
qed

text \<open>A field holding a space, a tab and an ideographic space.\<close>

theorem blank_input_is_noop_witness:
  "input (mount browser\<lparr>input := [0x20, 0x09, 0x3000]\<rparr>) = [0x20, 0x09, 0x3000] \<and>
   isWhiteSpace 0x20 \<and> isWhiteSpace 0x09 \<and> isWhiteSpace 0x3000 \<and>
   handleSubmit browser (mount browser\<lparr>input := [0x20, 0x09, 0x3000]\<rparr>) =
     mount browser\<lparr>input := [0x20, 0x09, 0x3000]\<rparr> \<and>
   messages (step browser Submit (mount browser\<lparr>input := [0x20, 0x09, 0x3000]\<rparr>)) = [greeting] \<and>
   outbound (step browser Submit (mount browser\<lparr>input := [0x20, 0x09, 0x3000]\<rparr>)) = []"
proof -
  let ?st = "mount browser\<lparr>input := [0x20, 0x09, 0x3000]\<rparr>"
  have blank: "\<forall>c\<in>set (input ?st). isWhiteSpace c"
    by (simp add: isWhiteSpace_def)
  note noop = blank_input_is_noop [OF blank, of browser]
  from noop have h: "handleSubmit browser ?st = ?st" and s: "step browser Submit ?st = ?st"
    by blast+
  have "messages (step browser Submit ?st) = [greeting]"
    unfolding s by (simp add: mount_def useEffect_def ChatInterface_def)
  moreover have "outbound (step browser Submit ?st) = []"
    unfolding s by (simp add: mount_def useEffect_def ChatInterface_def)
  moreover have "isWhiteSpace 0x20 \<and> isWhiteSpace 0x09 \<and> isWhiteSpace 0x3000"
    by (simp add: isWhiteSpace_def)
  ultimately show ?thesis using h by simp
qed

section \<open>The text that is stored and sent\<close>

text \<open>
  C10. When the trimmed input is not empty, the user Turn appended to the transcript and the
  message of the request both hold the input as typed, with its leading and trailing white
  space; trimming only decides whether the input is accepted.
\<close>

theorem accepted_input_is_sent_untrimmed:
  assumes "trim (input st) \<noteq> []"
  shows "messages (handleSubmit e st) = messages st @ [\<lparr>role = js ''user'', content = input st\<rparr>] \<and>
         outbound (handleSubmit e st) = outbound st @ [runChat_request e (input st)] \<and>
         sendMessage (runChat_request e (input st)) = input st"
  using assms by (simp add: submit_accepted runChat_request_def)

text \<open>The input \<open>" hi "\<close>: its trimmed form is \<open>"hi"\<close>, and \<open>" hi "\<close> is stored and sent.\<close>

theorem accepted_input_is_sent_untrimmed_witness:
  "trim (input (mount browser\<lparr>input := js '' hi ''\<rparr>)) = js ''hi'' \<and>
   trim (input (mount browser\<lparr>input := js '' hi ''\<rparr>)) \<noteq> [] \<and>
   messages (handleSubmit browser (mount browser\<lparr>input := js '' hi ''\<rparr>)) =
     [greeting, \<lparr>role = js ''user'', content = js '' hi ''\<rparr>] \<and>
   map sendMessage (outbound (handleSubmit browser (mount browser\<lparr>input := js '' hi ''\<rparr>))) =
     [js '' hi '']"
proof -
  have t: "trim (input (mount browser\<lparr>input := js '' hi ''\<rparr>)) = js ''hi''"
    by (simp add: trim_def isWhiteSpace_def js_def)
  then have ne: "trim (input (mount browser\<lparr>input := js '' hi ''\<rparr>)) \<noteq> []"
    by (simp add: js_def)
  from accepted_input_is_sent_untrimmed [OF ne, of browser] t ne show ?thesis
    by (simp add: mount_def useEffect_def ChatInterface_def)
qed

section \<open>Facts about the events\<close>

text \<open>While a reply is awaited, no event but the settling of the call changes the
  transcript, the flag or the requests.\<close>

lemma waiting_step:
  assumes "isTyping st" and "\<forall>outcome. ev \<noteq> Settled outcome"
  shows "isTyping (step e ev st) \<and> messages (step e ev st) = messages st \<and>
         outbound (step e ev st) = outbound st \<and> awaiting (step e ev st) = awaiting st"
  using assms by (cases ev) (simp_all add: handler_defs Let_def split: option.splits list.splits)

lemma waiting_run:
  assumes "isTyping st" and "\<forall>outcome. Settled outcome \<notin> set evs"
  shows "isTyping (run e evs st) \<and> messages (run e evs st) = messages st \<and>
         outbound (run e evs st) = outbound st \<and> awaiting (run e evs st) = awaiting st"
  using assms
proof (induction evs arbitrary: st)
  case Nil
  then show ?case by simp
next
  case (Cons ev evs)
  from Cons.prems have ev: "\<forall>outcome. ev \<noteq> Settled outcome" by auto
  from Cons.prems have evs: "\<forall>outcome. Settled outcome \<notin> set evs" by auto
  note s = waiting_step [OF Cons.prems(1) ev, of e]
  from s have "isTyping (step e ev st)" by simp
  from Cons.IH [OF this evs] s show ?case by simp
qed

lemma waiting_step_landing:
  assumes "isTyping st" and "\<forall>outcome. ev \<noteq> Settled outcome"
  shows "isTyping (step_landing e ev st) \<and> messages (step_landing e ev st) = messages st \<and>
         outbound (step_landing e ev st) = outbound st \<and>
         awaiting (step_landing e ev st) = awaiting st"
  using assms by (cases ev) simp_all

lemma waiting_run_landing:
  assumes "isTyping st" and "\<forall>outcome. Settled outcome \<notin> set evs"
  shows "isTyping (run_landing e evs st) \<and> messages (run_landing e evs st) = messages st \<and>
         outbound (run_landing e evs st) = outbound st \<and>
         awaiting (run_landing e evs st) = awaiting st"
  using assms
proof (induction evs arbitrary: st)
  case Nil
  then show ?case by simp
next
  case (Cons ev evs)
  from Cons.prems have ev: "\<forall>outcome. ev \<noteq> Settled outcome" by auto
  from Cons.prems have evs: "\<forall>outcome. Settled outcome \<notin> set evs" by auto
  note s = waiting_step_landing [OF Cons.prems(1) ev, of e]
  from s have "isTyping (step_landing e ev st)" by simp
  from Cons.IH [OF this evs] s show ?case by simp
qed

text \<open>The state in which an accepted submission waits, whatever else happens meanwhile.\<close>

lemma submitted:
  assumes "trim (input st) \<noteq> []" and "\<not> isTyping st"
    and "\<forall>outcome. Settled outcome \<notin> set evs"
  shows "isTyping (run e (Submit # evs) st) \<and>
         messages (run e (Submit # evs) st) =
           messages st @ [\<lparr>role = js ''user'', content = input st\<rparr>] \<and>
         outbound (run e (Submit # evs) st) = outbound st @ [runChat_request e (input st)] \<and>
         awaiting (run e (Submit # evs) st) = Suc (awaiting st)"
proof -
  let ?s1 = "step e Submit st"
  from assms(1,2) have "isTyping ?s1 \<and>
      messages ?s1 = messages st @ [\<lparr>role = js ''user'', content = input st\<rparr>] \<and>
      outbound ?s1 = outbound st @ [runChat_request e (input st)] \<and>
      awaiting ?s1 = Suc (awaiting st)"
    by (simp add: submit_accepted render_def useEffect_def)
  moreover from this have "isTyping ?s1" by simp
  note waiting_run [OF this assms(3), of e]
  ultimately show ?thesis by simp
qed

lemma submitted_landing:
  assumes "trim (input st) \<noteq> []" and "\<not> isTyping st"
    and "\<forall>outcome. Settled outcome \<notin> set evs"
  shows "isTyping (run_landing e (Submit # evs) st) \<and>
         messages (run_landing e (Submit # evs) st) =
           messages st @ [\<lparr>role = js ''user'', content = input st\<rparr>] \<and>
         outbound (run_landing e (Submit # evs) st) =
           outbound st @ [runChat_request e (input st)] \<and>
         awaiting (run_landing e (Submit # evs) st) = Suc (awaiting st)"
proof -
  let ?s1 = "step_landing e Submit st"
  from assms(1,2) have "isTyping ?s1 \<and>
      messages ?s1 = messages st @ [\<lparr>role = js ''user'', content = input st\<rparr>] \<and>
      outbound ?s1 = outbound st @ [runChat_request e (input st)] \<and>
      awaiting ?s1 = Suc (awaiting st)"
    by (simp add: submit_accepted)
  moreover from this have "isTyping ?s1" by simp
  note waiting_run_landing [OF this assms(3), of e]
  ultimately show ?thesis by simp
qed

text \<open>What the continuation does to the transcript and the flag.\<close>

lemma settled_messages:
  "messages (handleSubmit_settled outcome st) =
     messages st @ [\<lparr>role = js ''assistant'',
       content = (case outcome of Inr response \<Rightarrow> response
                  | Inl err \<Rightarrow> js ''I'm sorry, I encountered an error. Please try again.'')\<rparr>]"
  by (cases outcome) (simp_all add: handleSubmit_settled_def speakResponse_def Let_def split: option.splits)

lemma settled_flags:
  "\<not> isTyping (handleSubmit_settled outcome st) \<and>
   awaiting (handleSubmit_settled outcome st) = awaiting st - 1 \<and>
   outbound (handleSubmit_settled outcome st) = outbound st \<and>
   uncaught (handleSubmit_settled outcome st) = uncaught st"
  by (cases outcome) (simp_all add: handleSubmit_settled_def speakResponse_def Let_def split: option.splits)

lemma settled_landing_messages:
  "messages (handleSubmit_settled_landing outcome st) =
     messages st @ [\<lparr>role = js ''assistant'',
       content = (case outcome of Inr response \<Rightarrow> response
                  | Inl err \<Rightarrow> js ''I'm sorry, I encountered an error. Please try again.'')\<rparr>]"
  by (cases outcome) (simp_all add: handleSubmit_settled_landing_def Let_def)

lemma settled_landing_flags:
  "\<not> isTyping (handleSubmit_settled_landing outcome st) \<and>
   awaiting (handleSubmit_settled_landing outcome st) = awaiting st - 1 \<and>
   outbound (handleSubmit_settled_landing outcome st) = outbound st \<and>
   uncaught (handleSubmit_settled_landing outcome st) = uncaught st"
  by (cases outcome) (simp_all add: handleSubmit_settled_landing_def Let_def)

lemma step_settled:
  assumes "awaiting st \<noteq> 0"
  shows "messages (step e (Settled outcome) st) = messages (handleSubmit_settled outcome st) \<and>
         isTyping (step e (Settled outcome) st) = isTyping (handleSubmit_settled outcome st) \<and>
         outbound (step e (Settled outcome) st) = outbound (handleSubmit_settled outcome st) \<and>
         awaiting (step e (Settled outcome) st) = awaiting (handleSubmit_settled outcome st) \<and>
         uncaught (step e (Settled outcome) st) = uncaught (handleSubmit_settled outcome st) \<and>
         console (step e (Settled outcome) st) = console (handleSubmit_settled outcome st)"
  using assms by (simp add: render_def useEffect_def)


lemma other_events_frame:
  assumes "ev \<noteq> Submit" and "\<forall>outcome. ev \<noteq> Settled outcome"
  shows "messages (step e ev st) = messages st \<and> outbound (step e ev st) = outbound st \<and>
         isTyping (step e ev st) = isTyping st \<and> awaiting (step e ev st) = awaiting st"
  using assms by (cases ev) (simp_all add: handler_defs Let_def split: option.splits list.splits)

lemma step_submit_cases:
  "step e Submit st = st \<or>
   (messages (step e Submit st) = messages st @ [\<lparr>role = js ''user'', content = input st\<rparr>] \<and>
    outbound (step e Submit st) = outbound st @ [runChat_request e (input st)])"
proof (cases "isTyping st \<or> trim (input st) = []")
  case True
  then show ?thesis by (auto simp add: handleSubmit_def render_def)
next
  case False
  then show ?thesis by (simp add: submit_accepted render_def useEffect_def)
qed

lemma step_settled_cases:
  "step e (Settled outcome) st = st \<or>
   (\<exists>m. messages (step e (Settled outcome) st) = messages st @ [m] \<and>
    outbound (step e (Settled outcome) st) = outbound st)"
proof (cases "awaiting st = 0")
  case True
  then show ?thesis by simp
next
  case False
  with step_settled [of st e outcome] show ?thesis
    by (simp add: settled_messages settled_flags)
qed

text \<open>Every request was built by \<open>runChat\<close> from the text of a user Turn of the transcript.\<close>

lemma step_keeps_transcript:
  assumes "messages st \<noteq> []"
    and "\<forall>r\<in>set (outbound st). \<exists>m\<in>set (messages st).
           role m = js ''user'' \<and> r = runChat_request e (content m)"
  shows "messages (step e ev st) \<noteq> [] \<and> hd (messages (step e ev st)) = hd (messages st) \<and>
         (\<forall>r\<in>set (outbound (step e ev st)). \<exists>m\<in>set (messages (step e ev st)).
            role m = js ''user'' \<and> r = runChat_request e (content m))"
proof (cases "ev = Submit")
  case True
  with step_submit_cases [of e st] assms show ?thesis by auto
next
  case notsubmit: False
  show ?thesis
  proof (cases "\<exists>outcome. ev = Settled outcome")
    case True
    then obtain outcome where "ev = Settled outcome" by blast
    with step_settled_cases [of e outcome st] assms show ?thesis by auto
  next
    case False
    with notsubmit other_events_frame [of ev e st] assms show ?thesis by simp
  qed
qed

lemma run_keeps_transcript:
  assumes "messages st \<noteq> []"
    and "\<forall>r\<in>set (outbound st). \<exists>m\<in>set (messages st).
           role m = js ''user'' \<and> r = runChat_request e (content m)"
  shows "messages (run e evs st) \<noteq> [] \<and> hd (messages (run e evs st)) = hd (messages st) \<and>
         (\<forall>r\<in>set (outbound (run e evs st)). \<exists>m\<in>set (messages (run e evs st)).
            role m = js ''user'' \<and> r = runChat_request e (content m))"
  using assms
proof (induction evs arbitrary: st)
  case Nil
  then show ?case by simp
next
  case (Cons ev evs)
  note s = step_keeps_transcript [OF Cons.prems, of ev]
  from s have a: "messages (step e ev st) \<noteq> []" by simp
  from s have b: "\<forall>r\<in>set (outbound (step e ev st)). \<exists>m\<in>set (messages (step e ev st)).
            role m = js ''user'' \<and> r = runChat_request e (content m)" by simp
  from Cons.IH [OF a b] s show ?case by simp
qed

lemma request_turns_runChat:
  "request_turns (runChat_request e prompt) =
     [\<lparr>role = js ''user'', content = FIXED_PROMPT\<rparr>, \<lparr>role = js ''user'', content = prompt\<rparr>]"
  by (simp add: request_turns_def runChat_request_def)

lemma user_is_not_assistant: "js ''user'' \<noteq> js ''assistant''"
  by (simp add: js_def)


lemma step_landing_requests:
  assumes "\<forall>r\<in>set (outbound st). \<exists>p. r = runChat_request e p"
  shows "\<forall>r\<in>set (outbound (step_landing e ev st)). \<exists>p. r = runChat_request e p"
proof (cases ev)
  case Submit
  show ?thesis
  proof (cases "isTyping st \<or> trim (input st) = []")
    case True
    with Submit assms show ?thesis by (auto simp add: handleSubmit_def)
  next
    case False
    with Submit assms show ?thesis by (auto simp add: submit_accepted)
  qed
next
  case (Settled outcome)
  with assms show ?thesis by (simp add: settled_landing_flags)
qed (use assms in simp_all)

lemma run_landing_requests:
  assumes "\<forall>r\<in>set (outbound st). \<exists>p. r = runChat_request e p"
  shows "\<forall>r\<in>set (outbound (run_landing e evs st)). \<exists>p. r = runChat_request e p"
  using assms
proof (induction evs arbitrary: st)
  case Nil
  then show ?case by simp
next
  case (Cons ev evs)
  from Cons.IH [OF step_landing_requests [OF Cons.prems]] show ?case by simp
qed

section \<open>One submission\<close>

text \<open>
  C1. While a reply is awaited the form cannot be submitted (the button is disabled), so a
  submission starts with \<open>isTyping\<close> false. When the trimmed input is not empty, it appends
  one user Turn and sets \<open>isTyping\<close>; whatever other events follow, the transcript and the
  flag stay so until the call settles; settling appends one assistant Turn, holding the reply
  on success and the fixed apology on failure, and clears \<open>isTyping\<close>. The transcript has
  grown by exactly two Turns. The same holds for the component without speech.
\<close>

theorem submit_adds_user_turn_then_reply:
  "(isTyping st \<longrightarrow> step e Submit st = st \<and> step_landing e Submit st = st) \<and>
   (\<not> isTyping st \<and> trim (input st) \<noteq> [] \<and> (\<forall>outcome. Settled outcome \<notin> set evs) \<longrightarrow>
      isTyping (run e (Submit # evs) st) \<and>
      messages (run e (Submit # evs) st) =
        messages st @ [\<lparr>role = js ''user'', content = input st\<rparr>] \<and>
      \<not> isTyping (run e (Submit # evs @ [Settled outcome]) st) \<and>
      messages (run e (Submit # evs @ [Settled outcome]) st) =
        messages st @
        [\<lparr>role = js ''user'', content = input st\<rparr>,
         \<lparr>role = js ''assistant'',
          content = (case outcome of Inr response \<Rightarrow> response
                     | Inl err \<Rightarrow> js ''I'm sorry, I encountered an error. Please try again.'')\<rparr>] \<and>
      length (messages (run e (Submit # evs @ [Settled outcome]) st)) = length (messages st) + 2 \<and>
      isTyping (run_landing e (Submit # evs) st) \<and>
      messages (run_landing e (Submit # evs) st) =
        messages st @ [\<lparr>role = js ''user'', content = input st\<rparr>] \<and>
      \<not> isTyping (run_landing e (Submit # evs @ [Settled outcome]) st) \<and>
      messages (run_landing e (Submit # evs @ [Settled outcome]) st) =
        messages st @
        [\<lparr>role = js ''user'', content = input st\<rparr>,
         \<lparr>role = js ''assistant'',
          content = (case outcome of Inr response \<Rightarrow> response
                     | Inl err \<Rightarrow> js ''I'm sorry, I encountered an error. Please try again.'')\<rparr>] \<and>
      length (messages (run_landing e (Submit # evs @ [Settled outcome]) st)) =
        length (messages st) + 2)"
proof (intro conjI impI)
  assume "isTyping st"
  then show "step e Submit st = st" and "step_landing e Submit st = st" by simp_all
next
  assume h: "\<not> isTyping st \<and> trim (input st) \<noteq> [] \<and> (\<forall>outcome. Settled outcome \<notin> set evs)"
  then have accepted: "trim (input st) \<noteq> []" and idle: "\<not> isTyping st"
    and quiet: "\<forall>outcome. Settled outcome \<notin> set evs" by simp_all
  let ?w = "run e (Submit # evs) st"
  let ?d = "run e (Submit # evs @ [Settled outcome]) st"
  note w = submitted [OF accepted idle quiet, of e]
  have d: "?d = step e (Settled outcome) ?w"
    using run_append [of e "Submit # evs" "[Settled outcome]" st] by simp
  from w have "awaiting ?w \<noteq> 0" by simp
  note sd = step_settled [OF this, of e outcome]
  show "isTyping ?w" using w by simp
  show "messages ?w = messages st @ [\<lparr>role = js ''user'', content = input st\<rparr>]"
    using w by simp
  show "\<not> isTyping ?d" unfolding d using sd by (simp add: settled_flags)
  show md: "messages ?d = messages st @
        [\<lparr>role = js ''user'', content = input st\<rparr>,
         \<lparr>role = js ''assistant'',
          content = (case outcome of Inr response \<Rightarrow> response
                     | Inl err \<Rightarrow> js ''I'm sorry, I encountered an error. Please try again.'')\<rparr>]"
    unfolding d using sd w by (simp add: settled_messages)
  show "length (messages ?d) = length (messages st) + 2"
    by (simp only: md) simp
  let ?wl = "run_landing e (Submit # evs) st"
  let ?dl = "run_landing e (Submit # evs @ [Settled outcome]) st"
  note wl = submitted_landing [OF accepted idle quiet, of e]
  have dl: "?dl = step_landing e (Settled outcome) ?wl"
    using run_landing_append [of e "Submit # evs" "[Settled outcome]" st] by simp
  from wl have al: "awaiting ?wl \<noteq> 0" by simp
  show "isTyping ?wl" using wl by simp
  show "messages ?wl = messages st @ [\<lparr>role = js ''user'', content = input st\<rparr>]"
    using wl by simp
  show "\<not> isTyping ?dl" unfolding dl using al by (simp add: settled_landing_flags)
  show mdl: "messages ?dl = messages st @
        [\<lparr>role = js ''user'', content = input st\<rparr>,
         \<lparr>role = js ''assistant'',
          content = (case outcome of Inr response \<Rightarrow> response
                     | Inl err \<Rightarrow> js ''I'm sorry, I encountered an error. Please try again.'')\<rparr>]"
    unfolding dl using al wl by (simp add: settled_landing_messages)
  show "length (messages ?dl) = length (messages st) + 2"
    by (simp only: mdl) simp
qed


text \<open>The scenario of a fresh session, the input \<open>"I feel anxious"\<close>, two other events while
  waiting, and a reply.\<close>

theorem submit_adds_user_turn_then_reply_witness:
  "\<not> isTyping (mount browser\<lparr>input := js ''I feel anxious''\<rparr>) \<and>
   trim (input (mount browser\<lparr>input := js ''I feel anxious''\<rparr>)) \<noteq> [] \<and>
   (\<forall>outcome. Settled outcome \<notin> set [MicClick, Change (js ''and'')]) \<and>
   messages (run browser
      (Submit # [MicClick, Change (js ''and'')] @
       [Settled (Inr (js ''That's understandable, let's talk about it.''))])
      (mount browser\<lparr>input := js ''I feel anxious''\<rparr>)) =
     [greeting,
      \<lparr>role = js ''user'', content = js ''I feel anxious''\<rparr>,
      \<lparr>role = js ''assistant'', content = js ''That's understandable, let's talk about it.''\<rparr>] \<and>
   \<not> isTyping (run browser
      (Submit # [MicClick, Change (js ''and'')] @
       [Settled (Inr (js ''That's understandable, let's talk about it.''))])
      (mount browser\<lparr>input := js ''I feel anxious''\<rparr>))"
proof -
  let ?st = "mount browser\<lparr>input := js ''I feel anxious''\<rparr>"
  let ?evs = "[MicClick, Change (js ''and'')]"
  let ?out = "Inr (js ''That's understandable, let's talk about it.'') :: error + jsstring"
  have idle: "\<not> isTyping ?st"
    by (simp add: mount_def useEffect_def ChatInterface_def)
  have accepted: "trim (input ?st) \<noteq> []"
    by (simp add: trim_def isWhiteSpace_def js_def)
  have quiet: "\<forall>outcome. Settled outcome \<notin> set ?evs"
    by simp
  have before: "messages ?st = [greeting]" "input ?st = js ''I feel anxious''"
    by (simp_all add: mount_def useEffect_def ChatInterface_def)
  from submit_adds_user_turn_then_reply [of ?st browser ?evs ?out] idle accepted quiet
  have "messages (run browser (Submit # ?evs @ [Settled ?out]) ?st) =
          messages ?st @
          [\<lparr>role = js ''user'', content = input ?st\<rparr>,
           \<lparr>role = js ''assistant'',
            content = (case ?out of Inr response \<Rightarrow> response
                     | Inl err \<Rightarrow> js ''I'm sorry, I encountered an error. Please try again.'')\<rparr>]"
    and cleared: "\<not> isTyping (run browser (Submit # ?evs @ [Settled ?out]) ?st)"
    by blast+
  then have "messages (run browser (Submit # ?evs @ [Settled ?out]) ?st) =
     [greeting,
      \<lparr>role = js ''user'', content = js ''I feel anxious''\<rparr>,
      \<lparr>role = js ''assistant'', content = js ''That's understandable, let's talk about it.''\<rparr>]"
    by (simp only: before append.simps sum.case)
  with idle accepted quiet cleared show ?thesis by blast
qed

section \<open>What is sent\<close>

text \<open>
  C2. The request of a submission is built from the key and the input alone: it is the same
  whatever the transcript holds. It carries two Turns, the fixed instruction and the text
  just submitted. In every run of either component, every request that has left carries the
  fixed instruction and one user Turn and nothing else, so no other Turn of the transcript
  is in it.
\<close>

theorem request_carries_prompt_and_input_only:
  "(trim (input st) \<noteq> [] \<longrightarrow>
      (\<forall>ms. outbound (handleSubmit e (st\<lparr>messages := ms\<rparr>)) =
              outbound st @ [runChat_request e (input st)])) \<and>
   request_turns (runChat_request e prompt) =
     [\<lparr>role = js ''user'', content = FIXED_PROMPT\<rparr>, \<lparr>role = js ''user'', content = prompt\<rparr>] \<and>
   (\<forall>r\<in>set (outbound (run e evs (mount e))).
      \<exists>m\<in>set (messages (run e evs (mount e))).
        role m = js ''user'' \<and>
        request_turns r = [\<lparr>role = js ''user'', content = FIXED_PROMPT\<rparr>, m]) \<and>
   (\<forall>r\<in>set (outbound (run_landing e evs ChatInterface_landing)).
      \<exists>p. request_turns r =
        [\<lparr>role = js ''user'', content = FIXED_PROMPT\<rparr>, \<lparr>role = js ''user'', content = p\<rparr>])"
proof (intro conjI impI allI)
  fix ms
  assume "trim (input st) \<noteq> []"
  then have "trim (input (st\<lparr>messages := ms\<rparr>)) \<noteq> []" by simp
  from submit_accepted [OF this, of e]
  show "outbound (handleSubmit e (st\<lparr>messages := ms\<rparr>)) =
          outbound st @ [runChat_request e (input st)]" by simp
next
  show "request_turns (runChat_request e prompt) =
     [\<lparr>role = js ''user'', content = FIXED_PROMPT\<rparr>, \<lparr>role = js ''user'', content = prompt\<rparr>]"
    by (rule request_turns_runChat)
next
  have "messages (mount e) \<noteq> []"
    and "\<forall>r\<in>set (outbound (mount e)). \<exists>m\<in>set (messages (mount e)).
           role m = js ''user'' \<and> r = runChat_request e (content m)"
    by (simp_all add: mount_def useEffect_def ChatInterface_def)
  from run_keeps_transcript [OF this, of evs]
  have sent: "\<forall>r\<in>set (outbound (run e evs (mount e))).
      \<exists>m\<in>set (messages (run e evs (mount e))).
        role m = js ''user'' \<and> r = runChat_request e (content m)" by simp
  show "\<forall>r\<in>set (outbound (run e evs (mount e))).
      \<exists>m\<in>set (messages (run e evs (mount e))).
        role m = js ''user'' \<and>
        request_turns r = [\<lparr>role = js ''user'', content = FIXED_PROMPT\<rparr>, m]"
  proof
    fix r
    assume "r \<in> set (outbound (run e evs (mount e)))"
    with sent obtain m where m: "m \<in> set (messages (run e evs (mount e)))"
      and u: "role m = js ''user''" and r: "r = runChat_request e (content m)" by blast
    from u have "\<lparr>role = js ''user'', content = content m\<rparr> = m" by simp
    with r have "request_turns r = [\<lparr>role = js ''user'', content = FIXED_PROMPT\<rparr>, m]"
      by (simp add: request_turns_runChat)
    with m u show "\<exists>m\<in>set (messages (run e evs (mount e))).
        role m = js ''user'' \<and>
        request_turns r = [\<lparr>role = js ''user'', content = FIXED_PROMPT\<rparr>, m]" by blast
  qed
next
  have "\<forall>r\<in>set (outbound ChatInterface_landing). \<exists>p. r = runChat_request e p"
    by (simp add: ChatInterface_landing_def ChatInterface_def)
  from run_landing_requests [OF this, of evs]
  show "\<forall>r\<in>set (outbound (run_landing e evs ChatInterface_landing)).
      \<exists>p. request_turns r =
        [\<lparr>role = js ''user'', content = FIXED_PROMPT\<rparr>, \<lparr>role = js ''user'', content = p\<rparr>]"
    by (auto simp add: request_turns_runChat)
qed


text \<open>A session with a transcript of three Turns whose second submission sends
  \<open>"three"\<close> and the instruction only.\<close>

theorem request_carries_prompt_and_input_only_witness:
  "trim (input (run browser [Change (js ''one''), Submit, Settled (Inr (js ''two'')),
      Change (js ''three'')] (mount browser))) \<noteq> [] \<and>
   messages (run browser [Change (js ''one''), Submit, Settled (Inr (js ''two'')),
      Change (js ''three'')] (mount browser)) =
     [greeting, \<lparr>role = js ''user'', content = js ''one''\<rparr>,
      \<lparr>role = js ''assistant'', content = js ''two''\<rparr>] \<and>
   outbound (handleSubmit browser (run browser [Change (js ''one''), Submit,
      Settled (Inr (js ''two'')), Change (js ''three'')] (mount browser))) =
     [runChat_request browser (js ''one''), runChat_request browser (js ''three'')] \<and>
   request_turns (runChat_request browser (js ''three'')) =
     [\<lparr>role = js ''user'', content = FIXED_PROMPT\<rparr>,
      \<lparr>role = js ''user'', content = js ''three''\<rparr>]"
proof -
  let ?st = "run browser [Change (js ''one''), Submit, Settled (Inr (js ''two'')),
      Change (js ''three'')] (mount browser)"
  have st: "?st = \<lparr>messages = [greeting, \<lparr>role = js ''user'', content = js ''one''\<rparr>,
        \<lparr>role = js ''assistant'', content = js ''two''\<rparr>],
      input = js ''three'', isTyping = False, isListening = False, isSpeaking = True,
      recognitionRef = None, synthRef = Some WindowSpeechSynthesis,
      micControls = False, waveformControls = False,
      outbound = [runChat_request browser (js ''one'')], awaiting = 0,
      utterances = [js ''two''], console = [], uncaught = []\<rparr>"
    by (simp add: mount_def ChatInterface_def browser_def handler_defs Let_def
        trim_def isWhiteSpace_def js_def)
  have accepted: "trim (input ?st) \<noteq> []"
    unfolding st by (simp add: trim_def isWhiteSpace_def js_def)
  note c2 = request_carries_prompt_and_input_only [of ?st browser "js ''three''" "[]"]
  from c2 accepted
  have "outbound (handleSubmit browser (?st\<lparr>messages := messages ?st\<rparr>)) =
        outbound ?st @ [runChat_request browser (input ?st)]"
    by blast
  then have sent: "outbound (handleSubmit browser ?st) =
     [runChat_request browser (js ''one''), runChat_request browser (js ''three'')]"
    unfolding st by simp
  from c2 have turns: "request_turns (runChat_request browser (js ''three'')) =
     [\<lparr>role = js ''user'', content = FIXED_PROMPT\<rparr>,
      \<lparr>role = js ''user'', content = js ''three''\<rparr>]"
    by blast
  have "messages ?st = [greeting, \<lparr>role = js ''user'', content = js ''one''\<rparr>,
      \<lparr>role = js ''assistant'', content = js ''two''\<rparr>]"
    unfolding st by simp
  with accepted sent turns show ?thesis by blast
qed

section \<open>A failing call\<close>

text \<open>
  C3. When the call of an accepted submission is rejected with any error, the handler
  catches it: the transcript ends with the user Turn and one assistant Turn holding the
  fixed text \<open>"I'm sorry, I encountered an error. Please try again."\<close>, \<open>isTyping\<close> is
  cleared, exactly one request has left and no call is left suspended on it (no retry), the
  error is written to the console and no exception leaves the handler. \<open>isTyping\<close> is
  cleared whichever way the call settles.
\<close>

theorem remote_error_becomes_fallback_turn:
  assumes "trim (input st) \<noteq> []" and "\<not> isTyping st"
    and "\<forall>outcome. Settled outcome \<notin> set evs"
  shows "messages (run e (Submit # evs @ [Settled (Inl err)]) st) =
           messages st @
           [\<lparr>role = js ''user'', content = input st\<rparr>,
            \<lparr>role = js ''assistant'',
             content = js ''I'm sorry, I encountered an error. Please try again.''\<rparr>] \<and>
         \<not> isTyping (run e (Submit # evs @ [Settled (Inl err)]) st) \<and>
         outbound (run e (Submit # evs @ [Settled (Inl err)]) st) =
           outbound st @ [runChat_request e (input st)] \<and>
         awaiting (run e (Submit # evs @ [Settled (Inl err)]) st) = awaiting st \<and>
         uncaught (step e Submit st) = uncaught st \<and>
         (\<forall>s. awaiting s \<noteq> 0 \<longrightarrow>
            uncaught (step e (Settled (Inl err)) s) = uncaught s \<and>
            console (step e (Settled (Inl err)) s) =
              console s @ [[Str (js ''Error:''), Err err]]) \<and>
         (\<forall>outcome s. \<not> isTyping (handleSubmit_settled outcome s))"
proof -
  let ?w = "run e (Submit # evs) st"
  let ?d = "run e (Submit # evs @ [Settled (Inl err)]) st"
  note w = submitted [OF assms, of e]
  have d: "?d = step e (Settled (Inl err)) ?w"
    using run_append [of e "Submit # evs" "[Settled (Inl err)]" st] by simp
  from w have "awaiting ?w \<noteq> 0" by simp
  note sd = step_settled [OF this, of e "Inl err"]
  have "messages ?d = messages st @
           [\<lparr>role = js ''user'', content = input st\<rparr>,
            \<lparr>role = js ''assistant'',
             content = js ''I'm sorry, I encountered an error. Please try again.''\<rparr>]"
    unfolding d using sd w by (simp add: settled_messages)
  moreover have "\<not> isTyping ?d" unfolding d using sd by (simp add: settled_flags)
  moreover have "outbound ?d = outbound st @ [runChat_request e (input st)]"
    unfolding d using sd w by (simp add: settled_flags)
  moreover have "awaiting ?d = awaiting st"
    unfolding d using sd w by (simp add: settled_flags)
  moreover have "uncaught (step e Submit st) = uncaught st"
    using assms(1,2) by (simp add: submit_accepted render_def useEffect_def)
  moreover have "\<forall>s. awaiting s \<noteq> 0 \<longrightarrow>
            uncaught (step e (Settled (Inl err)) s) = uncaught s \<and>
            console (step e (Settled (Inl err)) s) =
              console s @ [[Str (js ''Error:''), Err err]]"
    by (simp add: render_def useEffect_def handleSubmit_settled_def Let_def)
  moreover have "\<forall>outcome s. \<not> isTyping (handleSubmit_settled outcome s)"
    by (simp add: settled_flags)
  ultimately show ?thesis by blast
qed

text \<open>The scenario of a fresh session whose endpoint throws.\<close>

theorem remote_error_becomes_fallback_turn_witness:
  "trim (input (mount browser\<lparr>input := js ''I feel anxious''\<rparr>)) \<noteq> [] \<and>
   \<not> isTyping (mount browser\<lparr>input := js ''I feel anxious''\<rparr>) \<and>
   (\<forall>outcome. Settled outcome \<notin> set [Change (js ''x'')]) \<and>
   awaiting (run browser [Submit, Change (js ''x'')]
      (mount browser\<lparr>input := js ''I feel anxious''\<rparr>)) \<noteq> 0 \<and>
   messages (run browser (Submit # [Change (js ''x'')] @ [Settled (Inl (RemoteError (js ''fetch failed'')))])
      (mount browser\<lparr>input := js ''I feel anxious''\<rparr>)) =
     [greeting,
      \<lparr>role = js ''user'', content = js ''I feel anxious''\<rparr>,
      \<lparr>role = js ''assistant'',
       content = js ''I'm sorry, I encountered an error. Please try again.''\<rparr>] \<and>
   \<not> isTyping (run browser (Submit # [Change (js ''x'')] @ [Settled (Inl (RemoteError (js ''fetch failed'')))])
      (mount browser\<lparr>input := js ''I feel anxious''\<rparr>)) \<and>
   outbound (run browser (Submit # [Change (js ''x'')] @ [Settled (Inl (RemoteError (js ''fetch failed'')))])
      (mount browser\<lparr>input := js ''I feel anxious''\<rparr>)) =
     [runChat_request browser (js ''I feel anxious'')] \<and>
   uncaught (step browser (Settled (Inl (RemoteError (js ''fetch failed''))))
      (run browser [Submit, Change (js ''x'')]
        (mount browser\<lparr>input := js ''I feel anxious''\<rparr>))) = []"
proof -
  let ?st = "mount browser\<lparr>input := js ''I feel anxious''\<rparr>"
  let ?evs = "[Change (js ''x'')]"
  let ?err = "RemoteError (js ''fetch failed'')"
  let ?w = "run browser [Submit, Change (js ''x'')] ?st"
  have accepted: "trim (input ?st) \<noteq> []"
    by (simp add: trim_def isWhiteSpace_def js_def)
  have idle: "\<not> isTyping ?st"
    by (simp add: mount_def useEffect_def ChatInterface_def)
  have quiet: "\<forall>outcome. Settled outcome \<notin> set ?evs"
    by simp
  have before: "messages ?st = [greeting]" "input ?st = js ''I feel anxious''" "outbound ?st = []"
    by (simp_all add: mount_def useEffect_def ChatInterface_def)
  have w: "awaiting ?w \<noteq> 0" "uncaught ?w = []"
    using accepted idle
    by (simp_all add: submit_accepted render_def useEffect_def mount_def ChatInterface_def)
  note c3 = remote_error_becomes_fallback_turn [OF accepted idle quiet, of browser ?err]
  from c3 have "messages (run browser (Submit # ?evs @ [Settled (Inl ?err)]) ?st) =
     messages ?st @
     [\<lparr>role = js ''user'', content = input ?st\<rparr>,
      \<lparr>role = js ''assistant'',
       content = js ''I'm sorry, I encountered an error. Please try again.''\<rparr>]"
    and cleared: "\<not> isTyping (run browser (Submit # ?evs @ [Settled (Inl ?err)]) ?st)"
    and "outbound (run browser (Submit # ?evs @ [Settled (Inl ?err)]) ?st) =
      outbound ?st @ [runChat_request browser (input ?st)]"
    by blast+
  then have m: "messages (run browser (Submit # ?evs @ [Settled (Inl ?err)]) ?st) =
     [greeting,
      \<lparr>role = js ''user'', content = js ''I feel anxious''\<rparr>,
      \<lparr>role = js ''assistant'',
       content = js ''I'm sorry, I encountered an error. Please try again.''\<rparr>]"
    and o: "outbound (run browser (Submit # ?evs @ [Settled (Inl ?err)]) ?st) =
     [runChat_request browser (js ''I feel anxious'')]"
    by (simp_all only: before append.simps)
  from c3 w(1) have "uncaught (step browser (Settled (Inl ?err)) ?w) = uncaught ?w"
    by blast
  with w(2) have u: "uncaught (step browser (Settled (Inl ?err)) ?w) = []"
    by (simp only:)
  from accepted idle quiet w(1) m cleared o u show ?thesis by blast
qed

section \<open>The greeting\<close>

text \<open>The fixed instruction is not the text of the greeting.\<close>

lemma prompt_is_not_greeting: "FIXED_PROMPT \<noteq> content greeting"
  by (simp add: FIXED_PROMPT_def greeting_def js_def)

text \<open>
  C4. In every state a mounted component can reach, the transcript is not empty and its
  first Turn is the greeting. Every request that has left has exactly this shape: its
  history is the one entry holding the fixed instruction, and its message is the text of a
  user Turn of the transcript. So a request carries two Turns, neither of which is the
  greeting Turn, and the instruction is not the greeting's text.
\<close>

theorem greeting_first_and_never_sent:
  "messages (run e evs (mount e)) \<noteq> [] \<and>
   hd (messages (run e evs (mount e))) = greeting \<and>
   (\<forall>r\<in>set (outbound (run e evs (mount e))).
      history r = [\<lparr>speaker = js ''user'', parts = [FIXED_PROMPT]\<rparr>] \<and>
      (\<exists>m\<in>set (messages (run e evs (mount e))).
         role m = js ''user'' \<and> sendMessage r = content m \<and>
         request_turns r = [\<lparr>role = js ''user'', content = FIXED_PROMPT\<rparr>, m]) \<and>
      greeting \<notin> set (request_turns r)) \<and>
   FIXED_PROMPT \<noteq> content greeting"
proof -
  have "messages (mount e) \<noteq> []"
    and "\<forall>r\<in>set (outbound (mount e)). \<exists>m\<in>set (messages (mount e)).
           role m = js ''user'' \<and> r = runChat_request e (content m)"
    by (simp_all add: mount_def useEffect_def ChatInterface_def)
  note kept = run_keeps_transcript [OF this, of evs]
  have first: "hd (messages (mount e)) = greeting"
    by (simp add: mount_def useEffect_def ChatInterface_def)
  have "history r = [\<lparr>speaker = js ''user'', parts = [FIXED_PROMPT]\<rparr>] \<and>
      (\<exists>m\<in>set (messages (run e evs (mount e))).
         role m = js ''user'' \<and> sendMessage r = content m \<and>
         request_turns r = [\<lparr>role = js ''user'', content = FIXED_PROMPT\<rparr>, m]) \<and>
      greeting \<notin> set (request_turns r)"
    if "r \<in> set (outbound (run e evs (mount e)))" for r
  proof -
    from kept that obtain m where m: "m \<in> set (messages (run e evs (mount e)))"
      and u: "role m = js ''user''" and r: "r = runChat_request e (content m)" by blast
    from r have h: "history r = [\<lparr>speaker = js ''user'', parts = [FIXED_PROMPT]\<rparr>]"
      and s: "sendMessage r = content m"
      by (simp_all add: runChat_request_def)
    from u have "\<lparr>role = js ''user'', content = content m\<rparr> = m" by simp
    with r have t: "request_turns r = [\<lparr>role = js ''user'', content = FIXED_PROMPT\<rparr>, m]"
      by (simp add: request_turns_runChat)
    from u have "greeting \<noteq> m"
      using user_is_not_assistant by (auto simp add: greeting_def)
    with t have "greeting \<notin> set (request_turns r)"
      using user_is_not_assistant by (auto simp add: greeting_def)
    with h s t m u show ?thesis by blast
  qed
  with kept first prompt_is_not_greeting show ?thesis by simp
qed

text \<open>A session of two submissions, the second being the very text of the greeting: both
  requests hold the instruction as their only history, and the second carries the text as
  a user Turn, which is not the greeting Turn.\<close>

theorem greeting_first_and_never_sent_witness:
  "outbound (run browser [Change (js ''one''), Submit, Settled (Inr (js ''two'')),
      Change (content greeting), Submit] (mount browser)) =
     [runChat_request browser (js ''one''), runChat_request browser (content greeting)] \<and>
   messages (run browser [Change (js ''one''), Submit, Settled (Inr (js ''two'')),
      Change (content greeting), Submit] (mount browser)) =
     [greeting, \<lparr>role = js ''user'', content = js ''one''\<rparr>,
      \<lparr>role = js ''assistant'', content = js ''two''\<rparr>,
      \<lparr>role = js ''user'', content = content greeting\<rparr>] \<and>
   history (runChat_request browser (content greeting)) =
     [\<lparr>speaker = js ''user'', parts = [FIXED_PROMPT]\<rparr>] \<and>
   greeting \<notin> set (request_turns (runChat_request browser (content greeting))) \<and>
   history (runChat_request browser (js ''one'')) =
     [\<lparr>speaker = js ''user'', parts = [FIXED_PROMPT]\<rparr>] \<and>
   greeting \<notin> set (request_turns (runChat_request browser (js ''one'')))"
proof -
  let ?evs = "[Change (js ''one''), Submit, Settled (Inr (js ''two'')),
      Change (content greeting), Submit]"
  have sent: "outbound (run browser ?evs (mount browser)) =
      [runChat_request browser (js ''one''), runChat_request browser (content greeting)]"
    by (simp add: mount_def ChatInterface_def browser_def handler_defs Let_def
        trim_def isWhiteSpace_def js_def greeting_def)
  have said: "messages (run browser ?evs (mount browser)) =
     [greeting, \<lparr>role = js ''user'', content = js ''one''\<rparr>,
      \<lparr>role = js ''assistant'', content = js ''two''\<rparr>,
      \<lparr>role = js ''user'', content = content greeting\<rparr>]"
    by (simp add: mount_def ChatInterface_def browser_def handler_defs Let_def
        trim_def isWhiteSpace_def js_def greeting_def)
  note c4 = greeting_first_and_never_sent [of browser ?evs]
  from c4 have "\<forall>r\<in>set (outbound (run browser ?evs (mount browser))).
      history r = [\<lparr>speaker = js ''user'', parts = [FIXED_PROMPT]\<rparr>] \<and>
      greeting \<notin> set (request_turns r)"
    by blast
  then have "history (runChat_request browser (content greeting)) =
       [\<lparr>speaker = js ''user'', parts = [FIXED_PROMPT]\<rparr>]"
    and "greeting \<notin> set (request_turns (runChat_request browser (content greeting)))"
    and "history (runChat_request browser (js ''one'')) =
       [\<lparr>speaker = js ''user'', parts = [FIXED_PROMPT]\<rparr>]"
    and "greeting \<notin> set (request_turns (runChat_request browser (js ''one'')))"
    unfolding sent by simp_all
  with sent said show ?thesis by blast
qed

section \<open>Speech input\<close>

text \<open>
  C7. A recognition result replaces the pending input: after the event the field holds the
  joined transcripts of the event's results and nothing of what it held before. In the
  scenario of two interim results \<open>"I feel"\<close> and then \<open>"I feel sad"\<close> after the microphone
  was switched on, the field holds \<open>"I feel sad"\<close>.
\<close>

theorem interim_result_replaces_input:
  "input (recognition_onresult results st) =
     concat (map (\<lambda>result. transcript (item0 result)) results) \<and>
   (recognitionRef st \<noteq> None \<longrightarrow>
      input (step e (SpeechResult results) st) =
        concat (map (\<lambda>result. transcript (item0 result)) results)) \<and>
   input (run browser
      [MicClick,
       SpeechResult [SpeechRecognitionResult False \<lparr>transcript = js ''I feel''\<rparr> []],
       SpeechResult [SpeechRecognitionResult False \<lparr>transcript = js ''I feel sad''\<rparr> []]]
      (mount browser)) = js ''I feel sad''"
  by (auto simp add: recognition_onresult_def toggleVoiceInput_def startListening_def
      mount_def useEffect_def ChatInterface_def browser_def Let_def)

text \<open>A field holding typed text is overwritten by an event with a final and an interim
  result.\<close>

theorem interim_result_replaces_input_witness:
  "recognitionRef (run browser [MicClick, Change (js ''typed'')] (mount browser)) \<noteq> None \<and>
   input (run browser [MicClick, Change (js ''typed'')] (mount browser)) = js ''typed'' \<and>
   input (step browser
      (SpeechResult [SpeechRecognitionResult True \<lparr>transcript = js ''I feel''\<rparr> [],
                     SpeechRecognitionResult False \<lparr>transcript = js '' sad''\<rparr> []])
      (run browser [MicClick, Change (js ''typed'')] (mount browser))) = js ''I feel sad''"
proof -
  let ?st = "run browser [MicClick, Change (js ''typed'')] (mount browser)"
  let ?results = "[SpeechRecognitionResult True \<lparr>transcript = js ''I feel''\<rparr> [],
                   SpeechRecognitionResult False \<lparr>transcript = js '' sad''\<rparr> []]"
  have r: "recognitionRef ?st \<noteq> None"
    by (simp add: toggleVoiceInput_def startListening_def mount_def useEffect_def
        ChatInterface_def browser_def Let_def)
  have i: "input ?st = js ''typed''"
    by (simp add: toggleVoiceInput_def startListening_def mount_def useEffect_def
        ChatInterface_def browser_def Let_def)
  from interim_result_replaces_input [of ?results ?st browser] r
  have "input (step browser (SpeechResult ?results) ?st) =
      concat (map (\<lambda>result. transcript (item0 result)) ?results)"
    by blast
  also have "concat (map (\<lambda>result. transcript (item0 result)) ?results) = js ''I feel sad''"
    by (simp add: js_def)
  finally show ?thesis using r i by blast
qed

text \<open>
  C9. When the recogniser reports an error, the handler writes it to the console, sets
  \<open>isListening\<close> to false and stops the recogniser, which is not started again; the
  transcript, the input, the request state and the speech output are untouched and no
  exception leaves the handler.
\<close>

theorem recognition_error_stops_listening:
  assumes "recognitionRef st = Some recognition"
  shows "\<not> isListening (step e (SpeechError err) st) \<and>
         recognitionRef (step e (SpeechError err) st) = Some (recognition\<lparr>running := False\<rparr>) \<and>
         console (step e (SpeechError err) st) =
           console st @ [[Str (js ''Speech recognition error''), Str err]] \<and>
         messages (step e (SpeechError err) st) = messages st \<and>
         input (step e (SpeechError err) st) = input st \<and>
         isTyping (step e (SpeechError err) st) = isTyping st \<and>
         outbound (step e (SpeechError err) st) = outbound st \<and>
         awaiting (step e (SpeechError err) st) = awaiting st \<and>
         isSpeaking (step e (SpeechError err) st) = isSpeaking st \<and>
         utterances (step e (SpeechError err) st) = utterances st \<and>
         uncaught (step e (SpeechError err) st) = uncaught st"
  using assms by (simp add: recognition_onerror_def stopListening_def Let_def)

text \<open>An error \<open>"no-speech"\<close> after the microphone was switched on.\<close>

theorem recognition_error_stops_listening_witness:
  "recognitionRef (run browser [MicClick] (mount browser)) =
     Some \<lparr>continuous = True, interimResults = True, running = True\<rparr> \<and>
   isListening (run browser [MicClick] (mount browser)) \<and>
   \<not> isListening (step browser (SpeechError (js ''no-speech'')) (run browser [MicClick] (mount browser))) \<and>
   recognitionRef (step browser (SpeechError (js ''no-speech'')) (run browser [MicClick] (mount browser))) =
     Some \<lparr>continuous = True, interimResults = True, running = False\<rparr> \<and>
   messages (step browser (SpeechError (js ''no-speech'')) (run browser [MicClick] (mount browser))) =
     [greeting]"
proof -
  let ?st = "run browser [MicClick] (mount browser)"
  have r: "recognitionRef ?st = Some \<lparr>continuous = True, interimResults = True, running = True\<rparr>"
    and l: "isListening ?st" and m: "messages ?st = [greeting]"
    by (simp_all add: toggleVoiceInput_def startListening_def mount_def useEffect_def
        ChatInterface_def browser_def Let_def)
  note c9 = recognition_error_stops_listening [OF r, of browser "js ''no-speech''"]
  from c9 have "\<not> isListening (step browser (SpeechError (js ''no-speech'')) ?st)"
    by blast
  moreover from c9 have "recognitionRef (step browser (SpeechError (js ''no-speech'')) ?st) =
     Some \<lparr>continuous = True, interimResults = True, running = False\<rparr>"
    by simp
  moreover from c9 m have "messages (step browser (SpeechError (js ''no-speech'')) ?st) = [greeting]"
    by (simp only:)
  ultimately show ?thesis using r l by blast
qed


section \<open>Speech output\<close>

text \<open>
  C6, as the code has it. \<open>speakResponse\<close> never cancels: with a synthesiser present,
  \<open>speak(a)\<close> and then \<open>speak(b)\<close> set \<open>isSpeaking\<close> at each call and hand both utterances to
  the synthesiser, the second queued behind the first and behind whatever was queued
  before; the new call does not interrupt the prior one.
\<close>

theorem speak_twice_queues_both:
  assumes "synthRef st = Some synth"
  shows "isSpeaking (speakResponse a st) \<and>
         utterances (speakResponse a st) = utterances st @ [a] \<and>
         isSpeaking (speakResponse b (speakResponse a st)) \<and>
         utterances (speakResponse b (speakResponse a st)) = utterances st @ [a, b]"
  using assms by (simp add: speakResponse_def Let_def)

text \<open>The two utterances of the scenario on a freshly mounted component.\<close>

theorem speak_twice_queues_both_witness:
  "synthRef (mount browser) = Some WindowSpeechSynthesis \<and>
   isSpeaking (speakResponse (js ''Hi there'') (mount browser)) \<and>
   isSpeaking (speakResponse (js ''Second message'') (speakResponse (js ''Hi there'') (mount browser))) \<and>
   utterances (speakResponse (js ''Second message'') (speakResponse (js ''Hi there'') (mount browser))) =
     [js ''Hi there'', js ''Second message'']"
proof -
  have s: "synthRef (mount browser) = Some WindowSpeechSynthesis"
    and u: "utterances (mount browser) = []"
    by (simp_all add: mount_def useEffect_def ChatInterface_def browser_def)
  from speak_twice_queues_both [OF s, of "js ''Hi there''" "js ''Second message''"]
  have "isSpeaking (speakResponse (js ''Hi there'') (mount browser))"
    and "isSpeaking (speakResponse (js ''Second message'') (speakResponse (js ''Hi there'') (mount browser)))"
    and "utterances (speakResponse (js ''Second message'') (speakResponse (js ''Hi there'') (mount browser))) =
      utterances (mount browser) @ [js ''Hi there'', js ''Second message'']"
    by blast+
  with s show ?thesis by (simp only: u append.simps)
qed

text \<open>
  C6 as stated fails: after \<open>speak("Hi there")\<close> and \<open>speak("Second message")\<close> the queue
  holds both utterances, and the completion of the first leaves \<open>isSpeaking\<close> false while
  \<open>"Second message"\<close> has not been spoken. The same happens in a session whose two
  submissions are answered with these texts before the first has been spoken.
\<close>

theorem second_speak_queues_counterexample:
  "utterances (speakResponse (js ''Second message'') (speakResponse (js ''Hi there'') (mount browser))) =
     [js ''Hi there'', js ''Second message''] \<and>
   \<not> isSpeaking (step browser UtteranceEnd
      (speakResponse (js ''Second message'') (speakResponse (js ''Hi there'') (mount browser)))) \<and>
   utterances (step browser UtteranceEnd
      (speakResponse (js ''Second message'') (speakResponse (js ''Hi there'') (mount browser)))) =
     [js ''Second message''] \<and>
   isSpeaking (run browser
      [Change (js ''a''), Submit, Settled (Inr (js ''Hi there'')),
       Change (js ''b''), Submit, Settled (Inr (js ''Second message''))] (mount browser)) \<and>
   \<not> isSpeaking (run browser
      [Change (js ''a''), Submit, Settled (Inr (js ''Hi there'')),
       Change (js ''b''), Submit, Settled (Inr (js ''Second message'')), UtteranceEnd]
      (mount browser)) \<and>
   utterances (run browser
      [Change (js ''a''), Submit, Settled (Inr (js ''Hi there'')),
       Change (js ''b''), Submit, Settled (Inr (js ''Second message'')), UtteranceEnd]
      (mount browser)) = [js ''Second message'']"
  by (simp add: mount_def ChatInterface_def browser_def handler_defs Let_def
      trim_def isWhiteSpace_def js_def)

text \<open>A successful reply is handed to \<open>speakResponse\<close>.\<close>

lemma success_is_spoken:
  "handleSubmit_settled (Inr response) st =
     (speakResponse response
        (st\<lparr>awaiting := awaiting st - 1,
            messages := messages st @ [\<lparr>role = js ''assistant'', content = response\<rparr>]\<rparr>))
     \<lparr>isTyping := False\<rparr>"
  by (simp add: handleSubmit_settled_def Let_def)

text \<open>When no reply is awaited, the transcript of a mounted component ends with an
  assistant Turn; while one is awaited, it ends with the user Turn just submitted.\<close>

lemma step_last_turn:
  assumes "messages st \<noteq> []"
    and "role (last (messages st)) = (if isTyping st then js ''user'' else js ''assistant'')"
    and "awaiting st = (if isTyping st then 1 else 0)"
  shows "messages (step e ev st) \<noteq> [] \<and>
         role (last (messages (step e ev st))) =
           (if isTyping (step e ev st) then js ''user'' else js ''assistant'') \<and>
         awaiting (step e ev st) = (if isTyping (step e ev st) then 1 else 0)"
proof (cases "ev = Submit")
  case True
  show ?thesis
  proof (cases "isTyping st \<or> trim (input st) = []")
    case blocked: True
    with True assms show ?thesis by (auto simp add: handleSubmit_def render_def)
  next
    case False
    with True assms show ?thesis by (simp add: submit_accepted render_def useEffect_def)
  qed
next
  case notsubmit: False
  show ?thesis
  proof (cases "\<exists>outcome. ev = Settled outcome")
    case True
    then obtain outcome where ev: "ev = Settled outcome" by blast
    show ?thesis
    proof (cases "awaiting st = 0")
      case True
      with ev assms show ?thesis by simp
    next
      case False
      with ev assms step_settled [OF False, of e outcome] show ?thesis
        by (simp add: settled_messages settled_flags split: if_splits)
    qed
  next
    case False
    with notsubmit other_events_frame [of ev e st] assms show ?thesis by simp
  qed
qed

lemma run_last_turn:
  assumes "messages st \<noteq> []"
    and "role (last (messages st)) = (if isTyping st then js ''user'' else js ''assistant'')"
    and "awaiting st = (if isTyping st then 1 else 0)"
  shows "messages (run e evs st) \<noteq> [] \<and>
         role (last (messages (run e evs st))) =
           (if isTyping (run e evs st) then js ''user'' else js ''assistant'') \<and>
         awaiting (run e evs st) = (if isTyping (run e evs st) then 1 else 0)"
  using assms
proof (induction evs arbitrary: st)
  case Nil
  then show ?case by simp
next
  case (Cons ev evs)
  note s = step_last_turn [OF Cons.prems, of e ev]
  from s have a: "messages (step e ev st) \<noteq> []"
    and b: "role (last (messages (step e ev st))) =
           (if isTyping (step e ev st) then js ''user'' else js ''assistant'')"
    and c: "awaiting (step e ev st) = (if isTyping (step e ev st) then 1 else 0)"
    by blast+
  from Cons.IH [OF a b c] show ?case by simp
qed

lemma replay_when_idle:
  assumes "st = run e evs (mount e)" and "\<not> isTyping st" and "\<not> isSpeaking st"
    and "synthRef st = Some synth"
  shows "role (last (messages st)) = js ''assistant'' \<and>
         utterances (step e SpeakerClick st) = utterances st @ [content (last (messages st))]"
proof -
  have "messages (mount e) \<noteq> []"
    and "role (last (messages (mount e))) =
      (if isTyping (mount e) then js ''user'' else js ''assistant'')"
    and "awaiting (mount e) = (if isTyping (mount e) then 1 else 0)"
    by (simp_all add: mount_def useEffect_def ChatInterface_def greeting_def)
  from run_last_turn [OF this, of e evs] assms(1,2)
  have "messages st \<noteq> []" and "role (last (messages st)) = js ''assistant''" by simp_all
  with assms(3,4) show ?thesis
    by (simp add: speaker_onClick_def speakResponse_def Let_def split: list.splits)
qed

text \<open>
  C8. The speaker button reads \<open>messages[messages.length - 1]\<close>, whoever spoke it. While a
  reply is awaited the last Turn is the user's: after submitting \<open>"I feel anxious"\<close> in a
  fresh session the only assistant Turn is the greeting, and a click on the button queues
  \<open>"I feel anxious"\<close> for speaking.
\<close>

theorem replay_while_waiting_speaks_user_text:
  "messages (run browser [Change (js ''I feel anxious''), Submit] (mount browser)) =
     [greeting, \<lparr>role = js ''user'', content = js ''I feel anxious''\<rparr>] \<and>
   filter (\<lambda>m. role m = js ''assistant'')
     (messages (run browser [Change (js ''I feel anxious''), Submit] (mount browser))) = [greeting] \<and>
   utterances (run browser [Change (js ''I feel anxious''), Submit, SpeakerClick] (mount browser)) =
     [js ''I feel anxious'']"
  by (simp add: mount_def ChatInterface_def browser_def handler_defs Let_def
      trim_def isWhiteSpace_def js_def greeting_def)

end
